theory Spec2Isabelle
  imports Main
begin

section \<open>The CSS selector builder of \<open>08-objects-tasks.js\<close>\<close>

text \<open>
  The class \<open>CSSSelector\<close> keeps two fields: \<open>value\<close>, the text rendered so far, and
  \<open>type\<close>, the array of the kinds of fragment appended so far, the newest first
  (every getter builds \<open>[kind, ...this.type]\<close>). The six strings that the code ever
  puts into that array are the constructors of \<open>kind\<close>. The constructor is not
  exported: only \<open>cssSelectorBuilder\<close> is, so no other string reaches the array.
\<close>

datatype kind = Element | Id | Class | Attr | PseudoClass | PseudoElement

text \<open>\<open>throw new Error(message)\<close>: the error carries its message and nothing else.\<close>

datatype error = Error string

record selector =
  sel_value :: string
  sel_type :: "kind list"

subsection \<open>The two checks\<close>

definition uniqueness_message :: string where
  "uniqueness_message =
     ''Element, id and pseudo-element should not occur more then one time inside the selector''"

definition order_message :: string where
  "order_message =
     ''Selector parts should be arranged in the following order: element, id, class, attribute, pseudo-class, pseudo-element''"

text \<open>
  \<open>checkUniqueness\<close>: three filters over \<open>this.type\<close>, each followed by a throw
  when more than one entry is left.
\<close>

definition checkUniqueness :: "kind list \<Rightarrow> error + unit" where
  "checkUniqueness ty =
     (if length (filter (\<lambda>x. x = Element) ty) > 1 then Inl (Error uniqueness_message)
      else if length (filter (\<lambda>x. x = Id) ty) > 1 then Inl (Error uniqueness_message)
      else if length (filter (\<lambda>x. x = PseudoElement) ty) > 1 then Inl (Error uniqueness_message)
      else Inr ())"

text \<open>The constant array \<open>order\<close> of \<open>checkOrder\<close> and JavaScript's \<open>indexOf\<close>,
  which answers \<open>-1\<close> for a value that is not in the array.\<close>

definition order :: "kind list" where
  "order = [Element, Id, Class, Attr, PseudoClass, PseudoElement]"

fun indexOf_from :: "'a list \<Rightarrow> 'a \<Rightarrow> int \<Rightarrow> int" where
  "indexOf_from [] x i = -1"
| "indexOf_from (y # ys) x i = (if y = x then i else indexOf_from ys x (i + 1))"

definition indexOf :: "'a list \<Rightarrow> 'a \<Rightarrow> int" where
  "indexOf xs x = indexOf_from xs x 0"

text \<open>The loop of \<open>checkOrder\<close> over \<open>this.type.slice(1)\<close>, with the running
  \<open>highestIndex\<close> as accumulator.\<close>

fun highestIndex_loop :: "kind list \<Rightarrow> int \<Rightarrow> int" where
  "highestIndex_loop [] highestIndex = highestIndex"
| "highestIndex_loop (t # ts) highestIndex =
     highestIndex_loop ts
       (if indexOf order t > highestIndex then indexOf order t else highestIndex)"

text \<open>
  \<open>checkOrder\<close>. \<open>this.type[0]\<close> of an empty array is \<open>undefined\<close>, whose
  \<open>indexOf\<close> is \<open>-1\<close>; \<open>slice(1)\<close> of an empty array is empty.
\<close>

definition checkOrder :: "kind list \<Rightarrow> error + unit" where
  "checkOrder ty =
     (let currentIndex = (case ty of [] \<Rightarrow> -1 | currentType # _ \<Rightarrow> indexOf order currentType);
          highestIndex = highestIndex_loop (drop 1 ty) 0
      in if currentIndex < highestIndex then Inl (Error order_message) else Inr ())"

subsection \<open>The constructor\<close>

text \<open>The \<open>switch\<close> on \<open>type[0]\<close>: what is added to \<open>this.value\<close>.\<close>

fun fragment :: "kind \<Rightarrow> string \<Rightarrow> string" where
  "fragment Element v = v"
| "fragment Id v = ''#'' @ v"
| "fragment Class v = ''.'' @ v"
| "fragment Attr v = ''['' @ v @ '']''"
| "fragment PseudoClass v = '':'' @ v"
| "fragment PseudoElement v = ''::'' @ v"

text \<open>
  \<open>new CSSSelector(value, type, remainder)\<close>: the text is built, the array is
  stored, then \<open>checkUniqueness\<close> runs and after it \<open>checkOrder\<close>; a throw of
  either leaves the caller without an object.
\<close>

definition CSSSelector :: "string \<Rightarrow> kind list \<Rightarrow> string \<Rightarrow> error + selector" where
  "CSSSelector v ty remainder =
     (let this = \<lparr>sel_value = (case ty of [] \<Rightarrow> remainder | t # _ \<Rightarrow> remainder @ fragment t v),
                  sel_type = ty\<rparr>
      in case checkUniqueness (sel_type this) of
           Inl e \<Rightarrow> Inl e
         | Inr _ \<Rightarrow> (case checkOrder (sel_type this) of
                       Inl e \<Rightarrow> Inl e
                     | Inr _ \<Rightarrow> Inr this))"

definition stringify :: "selector \<Rightarrow> string" where
  "stringify this = sel_value this"

subsection \<open>The getters of an instance\<close>

definition sel_id :: "selector \<Rightarrow> string \<Rightarrow> error + selector" where
  "sel_id this v = CSSSelector v (Id # sel_type this) (sel_value this)"

definition sel_class :: "selector \<Rightarrow> string \<Rightarrow> error + selector" where
  "sel_class this v = CSSSelector v (Class # sel_type this) (sel_value this)"

definition sel_attr :: "selector \<Rightarrow> string \<Rightarrow> error + selector" where
  "sel_attr this v = CSSSelector v (Attr # sel_type this) (sel_value this)"

definition sel_element :: "selector \<Rightarrow> string \<Rightarrow> error + selector" where
  "sel_element this v = CSSSelector v (Element # sel_type this) (sel_value this)"

definition sel_pseudoClass :: "selector \<Rightarrow> string \<Rightarrow> error + selector" where
  "sel_pseudoClass this v = CSSSelector v (PseudoClass # sel_type this) (sel_value this)"

definition sel_pseudoElement :: "selector \<Rightarrow> string \<Rightarrow> error + selector" where
  "sel_pseudoElement this v = CSSSelector v (PseudoElement # sel_type this) (sel_value this)"

text \<open>\<open>CSSSelector.combine\<close>: the joined text becomes the remainder of a selector
  of type \<open>['element']\<close> with the empty string as its value.\<close>

definition combine :: "selector \<Rightarrow> string \<Rightarrow> selector \<Rightarrow> error + selector" where
  "combine selector1 combinator selector2 =
     CSSSelector '''' [Element]
       (stringify selector1 @ '' '' @ combinator @ '' '' @ stringify selector2)"

subsection \<open>The facade \<open>cssSelectorBuilder\<close>\<close>

text \<open>Each entry calls the constructor with a one-element array and the default
  remainder \<open>''\<close>.\<close>

definition b_element :: "string \<Rightarrow> error + selector" where
  "b_element v = CSSSelector v [Element] ''''"

definition b_id :: "string \<Rightarrow> error + selector" where
  "b_id v = CSSSelector v [Id] ''''"

definition b_class :: "string \<Rightarrow> error + selector" where
  "b_class v = CSSSelector v [Class] ''''"

definition b_attr :: "string \<Rightarrow> error + selector" where
  "b_attr v = CSSSelector v [Attr] ''''"

definition b_pseudoClass :: "string \<Rightarrow> error + selector" where
  "b_pseudoClass v = CSSSelector v [PseudoClass] ''''"

definition b_pseudoElement :: "string \<Rightarrow> error + selector" where
  "b_pseudoElement v = CSSSelector v [PseudoElement] ''''"

definition b_combine :: "selector \<Rightarrow> string \<Rightarrow> selector \<Rightarrow> error + selector" where
  "b_combine selector1 combinator selector2 = combine selector1 combinator selector2"

subsection \<open>Appends by kind, and chains of calls\<close>

text \<open>The getter of an instance and the entry of the facade that belong to a kind.\<close>

fun append_kind :: "kind \<Rightarrow> selector \<Rightarrow> string \<Rightarrow> error + selector" where
  "append_kind Element = sel_element"
| "append_kind Id = sel_id"
| "append_kind Class = sel_class"
| "append_kind Attr = sel_attr"
| "append_kind PseudoClass = sel_pseudoClass"
| "append_kind PseudoElement = sel_pseudoElement"

fun builder_kind :: "kind \<Rightarrow> string \<Rightarrow> error + selector" where
  "builder_kind Element = b_element"
| "builder_kind Id = b_id"
| "builder_kind Class = b_class"
| "builder_kind Attr = b_attr"
| "builder_kind PseudoClass = b_pseudoClass"
| "builder_kind PseudoElement = b_pseudoElement"

text \<open>A chain \<open>s.k1(v1).k2(v2)...\<close> on an existing selector: the first throw
  ends it.\<close>

fun chain_from :: "selector \<Rightarrow> (kind \<times> string) list \<Rightarrow> error + selector" where
  "chain_from s [] = Inr s"
| "chain_from s ((k, v) # fs) =
     (case append_kind k s v of Inl e \<Rightarrow> Inl e | Inr s' \<Rightarrow> chain_from s' fs)"

text \<open>A chain \<open>cssSelectorBuilder.k0(v0).k1(v1)...\<close>: the facade makes the first
  fragment, the getters add the others.\<close>

definition chain :: "kind \<times> string \<Rightarrow> (kind \<times> string) list \<Rightarrow> error + selector" where
  "chain f0 fs =
     (case builder_kind (fst f0) (snd f0) of Inl e \<Rightarrow> Inl e | Inr s \<Rightarrow> chain_from s fs)"

text \<open>The selectors that a client of the exported facade can hold: what the six
  entries return, what the six getters return on such a selector, and what
  \<open>combine\<close> returns on two of them.\<close>

inductive reachable :: "selector \<Rightarrow> bool" where
  by_builder: "builder_kind k v = Inr s \<Longrightarrow> reachable s"
| by_getter: "reachable s \<Longrightarrow> append_kind k s v = Inr s' \<Longrightarrow> reachable s'"
| by_combine: "reachable s1 \<Longrightarrow> reachable s2 \<Longrightarrow> b_combine s1 c s2 = Inr s \<Longrightarrow> reachable s"

subsection \<open>The vocabulary of the specification\<close>

text \<open>The precedence table of the specification, to be compared with
  \<open>order.indexOf\<close> of the code, and the greatest rank of a history, \<open>0\<close> for the
  empty one.\<close>

fun rank :: "kind \<Rightarrow> nat" where
  "rank Element = 0"
| "rank Id = 1"
| "rank Class = 2"
| "rank Attr = 3"
| "rank PseudoClass = 4"
| "rank PseudoElement = 5"

definition max_rank :: "kind list \<Rightarrow> nat" where
  "max_rank H = foldr max (map rank H) 0"

text \<open>The kinds that the specification allows once only.\<close>

definition unique_kinds :: "kind set" where
  "unique_kinds = {Element, Id, PseudoElement}"

definition occurrences :: "kind \<Rightarrow> kind list \<Rightarrow> nat" where
  "occurrences k H = length (filter (\<lambda>x. x = k) H)"

text \<open>The rendering that the specification gives for a sequence of fragments:
  grouped by rank, the fragments of one kind in the order of their appends.\<close>

definition spec_render :: "(kind \<times> string) list \<Rightarrow> string" where
  "spec_render fs = concat (map (\<lambda>f. fragment (fst f) (snd f)) (sort_key (\<lambda>f. rank (fst f)) fs))"

section \<open>Objects and arrays in a store\<close>

text \<open>
  Whether a call changes the selector it is invoked on is a question about the
  objects themselves, so here the instances and their \<open>type\<close> arrays live in a store.
  An address is the index of a cell; \<open>new\<close> and every array literal add a cell at the
  end. Strings are immutable values in JavaScript and stay values here. The arrays
  that \<open>filter\<close> and \<open>slice\<close> return inside the two checks are dropped by the checks
  themselves and get no cell.
\<close>

type_synonym addr = nat

record object =
  value_field :: string
  type_field :: addr

record heap =
  objects :: "object list"
  arrays :: "kind list list"

definition lookup :: "'a list \<Rightarrow> addr \<Rightarrow> 'a option" where
  "lookup cells a = (if a < length cells then Some (cells ! a) else None)"

definition new_array :: "kind list \<Rightarrow> heap \<Rightarrow> addr \<times> heap" where
  "new_array ks h = (length (arrays h), h\<lparr>arrays := arrays h @ [ks]\<rparr>)"

definition new_object :: "object \<Rightarrow> heap \<Rightarrow> addr \<times> heap" where
  "new_object ob h = (length (objects h), h\<lparr>objects := objects h @ [ob]\<rparr>)"

text \<open>\<open>this.type\<close> and \<open>this.value\<close>, read through the store. \<open>None\<close> stands for an
  address without a cell, which no JavaScript program can hold.\<close>

definition this_type :: "heap \<Rightarrow> addr \<Rightarrow> kind list option" where
  "this_type h this =
     (case lookup (objects h) this of
        None \<Rightarrow> None
      | Some ob \<Rightarrow> lookup (arrays h) (type_field ob))"

definition this_value :: "heap \<Rightarrow> addr \<Rightarrow> string option" where
  "this_value h this = map_option value_field (lookup (objects h) this)"

text \<open>The constructor: \<open>this\<close> is a new cell, its \<open>type\<close> field is the reference it
  was given, and both checks read the array through \<open>this.type\<close>. A throw leaves the
  new cell behind, with no reference to it.\<close>

definition h_CSSSelector :: "string \<Rightarrow> addr \<Rightarrow> string \<Rightarrow> heap \<Rightarrow> ((error + addr) \<times> heap) option" where
  "h_CSSSelector v ty remainder h =
     (case lookup (arrays h) ty of
        None \<Rightarrow> None
      | Some ks \<Rightarrow>
          (let (this, h1) =
                 new_object \<lparr>value_field = (case ks of [] \<Rightarrow> remainder
                                                     | t # _ \<Rightarrow> remainder @ fragment t v),
                             type_field = ty\<rparr> h
           in case this_type h1 this of
                None \<Rightarrow> None
              | Some this_ty \<Rightarrow>
                  (case checkUniqueness this_ty of
                     Inl e \<Rightarrow> Some (Inl e, h1)
                   | Inr _ \<Rightarrow> (case checkOrder this_ty of
                                 Inl e \<Rightarrow> Some (Inl e, h1)
                               | Inr _ \<Rightarrow> Some (Inr this, h1)))))"

text \<open>\<open>stringify\<close> returns the field and writes nothing.\<close>

definition h_stringify :: "addr \<Rightarrow> heap \<Rightarrow> (string \<times> heap) option" where
  "h_stringify this h =
     (case this_value h this of None \<Rightarrow> None | Some s \<Rightarrow> Some (s, h))"

text \<open>The six getters differ in the string they put in front of \<open>...this.type\<close>
  only. The array literal \<open>[kind, ...this.type]\<close> copies the receiver's array into a
  new cell; \<open>this.value\<close> is passed as a string.\<close>

definition h_append :: "kind \<Rightarrow> addr \<Rightarrow> string \<Rightarrow> heap \<Rightarrow> ((error + addr) \<times> heap) option" where
  "h_append k this v h =
     (case this_type h this of
        None \<Rightarrow> None
      | Some ks \<Rightarrow>
          (case this_value h this of
             None \<Rightarrow> None
           | Some remainder \<Rightarrow>
               (let (ty, h1) = new_array (k # ks) h
                in h_CSSSelector v ty remainder h1)))"

text \<open>The selector that an address stands for.\<close>

definition selector_at :: "heap \<Rightarrow> addr \<Rightarrow> selector option" where
  "selector_at h this =
     (case this_value h this of
        None \<Rightarrow> None
      | Some s \<Rightarrow> (case this_type h this of
                    None \<Rightarrow> None
                  | Some ks \<Rightarrow> Some \<lparr>sel_value = s, sel_type = ks\<rparr>))"

text \<open>What the outcome of a call stands for: the error thrown, or the selector at
  the address returned.\<close>

definition denote :: "heap \<Rightarrow> error + addr \<Rightarrow> (error + selector) option" where
  "denote h r = (case r of Inl e \<Rightarrow> Some (Inl e) | Inr a \<Rightarrow> map_option Inr (selector_at h a))"

section \<open>Basic facts\<close>

lemma indexOf_order: "indexOf order k = int (rank k)"
  by (cases k) (simp_all add: indexOf_def order_def)

lemma highestIndex_loop_max:
  "0 \<le> hi \<Longrightarrow> highestIndex_loop ts hi = max hi (int (max_rank ts))"
proof (induction ts arbitrary: hi)
  case Nil
  then show ?case by (simp add: max_rank_def)
next
  case (Cons t ts)
  have "highestIndex_loop (t # ts) hi = highestIndex_loop ts (max (int (rank t)) hi)"
    by (simp add: indexOf_order max_def)
  also have "\<dots> = max (max (int (rank t)) hi) (int (max_rank ts))"
    using Cons.prems by (intro Cons.IH) simp
  finally show ?case by (simp add: max_rank_def)
qed

lemma highestIndex_loop_max_rank: "highestIndex_loop H 0 = int (max_rank H)"
  using highestIndex_loop_max [of 0 H] by simp

lemma max_rank_Cons: "max_rank (k # H) = max (rank k) (max_rank H)"
  by (simp add: max_rank_def)

lemma checkOrder_Cons:
  "checkOrder (k # H) = (if rank k < max_rank H then Inl (Error order_message) else Inr ())"
  by (simp add: checkOrder_def indexOf_order highestIndex_loop_max_rank)

lemma checkUniqueness_occurrences:
  "checkUniqueness ty =
     (if occurrences Element ty \<le> 1 \<and> occurrences Id ty \<le> 1 \<and> occurrences PseudoElement ty \<le> 1
      then Inr () else Inl (Error uniqueness_message))"
  by (auto simp add: checkUniqueness_def occurrences_def)

lemma append_kind_CSSSelector:
  "append_kind k s v = CSSSelector v (k # sel_type s) (sel_value s)"
  by (cases k)
     (simp_all add: sel_element_def sel_id_def sel_class_def sel_attr_def
        sel_pseudoClass_def sel_pseudoElement_def)

lemma builder_kind_CSSSelector: "builder_kind k v = CSSSelector v [k] ''''"
  by (cases k)
     (simp_all add: b_element_def b_id_def b_class_def b_attr_def
        b_pseudoClass_def b_pseudoElement_def)

lemma CSSSelector_Cons:
  "CSSSelector v (k # H) remainder =
     (if checkUniqueness (k # H) = Inr () \<and> max_rank H \<le> rank k
      then Inr \<lparr>sel_value = remainder @ fragment k v, sel_type = k # H\<rparr>
      else if checkUniqueness (k # H) = Inr () then Inl (Error order_message)
      else Inl (Error uniqueness_message))"
  by (simp add: CSSSelector_def checkOrder_Cons checkUniqueness_occurrences)

lemma CSSSelector_Inr:
  "CSSSelector v ty remainder = Inr s \<Longrightarrow> checkUniqueness (sel_type s) = Inr ()"
  by (auto simp add: CSSSelector_def Let_def split: sum.splits)

lemma messages_differ: "uniqueness_message \<noteq> order_message"
  by (simp add: uniqueness_message_def order_message_def)

section \<open>What the two checks decide\<close>

lemma checkUniqueness_Cons_ok:
  "checkUniqueness H = Inr () \<Longrightarrow> \<not> (k \<in> unique_kinds \<and> k \<in> set H) \<Longrightarrow>
   checkUniqueness (k # H) = Inr ()"
  by (cases k)
     (auto simp add: checkUniqueness_occurrences occurrences_def unique_kinds_def
        filter_empty_conv split: if_splits)

lemma checkUniqueness_duplicate:
  "k \<in> unique_kinds \<Longrightarrow> k \<in> set H \<Longrightarrow>
   checkUniqueness (k # H) = Inl (Error uniqueness_message)"
  by (cases k)
     (auto simp add: checkUniqueness_occurrences occurrences_def unique_kinds_def
        filter_empty_conv)

lemma checkUniqueness_tail:
  "checkUniqueness (xs @ ys) = Inr () \<Longrightarrow> checkUniqueness ys = Inr ()"
  by (auto simp add: checkUniqueness_occurrences occurrences_def split: if_splits)

lemma reachable_checkUniqueness: "reachable s \<Longrightarrow> checkUniqueness (sel_type s) = Inr ()"
  by (induction rule: reachable.induct)
     (auto simp add: builder_kind_CSSSelector append_kind_CSSSelector b_combine_def combine_def
        dest: CSSSelector_Inr)

lemma combine_result:
  "combine s1 c s2 =
     Inr \<lparr>sel_value = stringify s1 @ '' '' @ c @ '' '' @ stringify s2, sel_type = [Element]\<rparr>"
  by (simp add: combine_def CSSSelector_Cons checkUniqueness_occurrences occurrences_def
      max_rank_def)

lemma builder_kind_result:
  "builder_kind k v = Inr \<lparr>sel_value = fragment k v, sel_type = [k]\<rparr>"
  by (simp add: builder_kind_CSSSelector CSSSelector_Cons checkUniqueness_occurrences
      occurrences_def max_rank_def)

lemma append_kind_ok:
  assumes "checkUniqueness (k # sel_type s) = Inr ()" and "max_rank (sel_type s) \<le> rank k"
  shows "append_kind k s v =
           Inr \<lparr>sel_value = sel_value s @ fragment k v, sel_type = k # sel_type s\<rparr>"
  using assms by (simp add: append_kind_CSSSelector CSSSelector_Cons)

section \<open>The claims\<close>

text \<open>
  C1, as the code has it. Appending a fragment of kind \<open>K\<close>, one of Element, Id and
  PseudoElement, to a selector whose history already has a fragment of kind \<open>K\<close>
  throws, whatever else the history holds, and no selector is returned. The message
  of the error is the literal of \<open>checkUniqueness\<close>, which reads "more then one
  time".
\<close>

theorem C1_duplicate_fragment_throws:
  "K \<in> unique_kinds \<Longrightarrow> K \<in> set (sel_type s) \<Longrightarrow>
   append_kind K s v =
     Inl (Error ''Element, id and pseudo-element should not occur more then one time inside the selector'')"
  by (simp add: append_kind_CSSSelector CSSSelector_Cons checkUniqueness_duplicate
      uniqueness_message_def)

theorem C1_duplicate_fragment_throws_witness:
  "Element \<in> unique_kinds \<and>
   Element \<in> set (sel_type \<lparr>sel_value = ''table#data.row'', sel_type = [Class, Id, Element]\<rparr>) \<and>
   append_kind Element \<lparr>sel_value = ''table#data.row'', sel_type = [Class, Id, Element]\<rparr> ''div'' =
     Inl (Error ''Element, id and pseudo-element should not occur more then one time inside the selector'')"
  using C1_duplicate_fragment_throws
    [of Element "\<lparr>sel_value = ''table#data.row'', sel_type = [Class, Id, Element]\<rparr>" "''div''"]
  by (simp add: unique_kinds_def)

text \<open>
  C1 as the claim words it fails: \<open>builder.element('table').element('div')\<close> throws,
  but the message is not the one with "more than one time".
\<close>

theorem C1_message_counterexample:
  "b_element ''table'' = Inr \<lparr>sel_value = ''table'', sel_type = [Element]\<rparr> \<and>
   Element \<in> unique_kinds \<and>
   Element \<in> set (sel_type \<lparr>sel_value = ''table'', sel_type = [Element]\<rparr>) \<and>
   sel_element \<lparr>sel_value = ''table'', sel_type = [Element]\<rparr> ''div'' \<noteq>
     Inl (Error ''Element, id and pseudo-element should not occur more than one time inside the selector'')"
  by (simp add: b_element_def sel_element_def CSSSelector_def checkUniqueness_def
      checkOrder_def indexOf_def order_def unique_kinds_def uniqueness_message_def)

text \<open>
  C2, as the code has it. For a selector that the facade can produce, with history
  \<open>H\<close>, and an append of kind \<open>K\<close> that is not a second Element, Id or
  PseudoElement: when \<open>rank K\<close> is below the greatest rank of \<open>H\<close> the append throws
  the error with the ordering message. And for every history, when \<open>rank K\<close> is at
  least the greatest rank of \<open>H\<close> (0 for the empty history), \<open>checkOrder\<close> returns
  without a throw.
\<close>

theorem C2_order_check:
  "(reachable s \<and> \<not> (K \<in> unique_kinds \<and> K \<in> set (sel_type s)) \<and> rank K < max_rank (sel_type s)
      \<longrightarrow> append_kind K s v =
            Inl (Error ''Selector parts should be arranged in the following order: element, id, class, attribute, pseudo-class, pseudo-element''))
   \<and> (max_rank H \<le> rank K \<longrightarrow> checkOrder (K # H) = Inr ())"
proof (intro conjI impI)
  assume a: "reachable s \<and> \<not> (K \<in> unique_kinds \<and> K \<in> set (sel_type s)) \<and>
    rank K < max_rank (sel_type s)"
  then have "checkUniqueness (K # sel_type s) = Inr ()"
    using reachable_checkUniqueness checkUniqueness_Cons_ok by blast
  with a show "append_kind K s v =
      Inl (Error ''Selector parts should be arranged in the following order: element, id, class, attribute, pseudo-class, pseudo-element'')"
    by (simp add: append_kind_CSSSelector CSSSelector_Cons order_message_def)
next
  assume "max_rank H \<le> rank K"
  then show "checkOrder (K # H) = Inr ()"
    by (simp add: checkOrder_Cons)
qed

theorem C2_order_check_witness:
  "reachable \<lparr>sel_value = ''.container'', sel_type = [Class]\<rparr> \<and>
   \<not> (Id \<in> unique_kinds \<and> Id \<in> set (sel_type \<lparr>sel_value = ''.container'', sel_type = [Class]\<rparr>)) \<and>
   rank Id < max_rank (sel_type \<lparr>sel_value = ''.container'', sel_type = [Class]\<rparr>) \<and>
   append_kind Id \<lparr>sel_value = ''.container'', sel_type = [Class]\<rparr> ''main'' =
     Inl (Error ''Selector parts should be arranged in the following order: element, id, class, attribute, pseudo-class, pseudo-element'') \<and>
   max_rank [Class, Id] \<le> rank Class \<and> checkOrder (Class # [Class, Id]) = Inr ()"
proof -
  have r: "reachable \<lparr>sel_value = ''.container'', sel_type = [Class]\<rparr>"
    using by_builder [OF builder_kind_result [of Class "''container''"]] by simp
  have m: "rank Id < max_rank (sel_type \<lparr>sel_value = ''.container'', sel_type = [Class]\<rparr>)"
    by (simp add: max_rank_def)
  have n: "max_rank [Class, Id] \<le> rank Class"
    by (simp add: max_rank_def)
  show ?thesis
    using r m n
      C2_order_check [of "\<lparr>sel_value = ''.container'', sel_type = [Class]\<rparr>" Id "''main''"
        "[Class, Id]"]
      C2_order_check [of "\<lparr>sel_value = ''.container'', sel_type = [Class]\<rparr>" Class "''main''"
        "[Class, Id]"]
    by simp
qed

text \<open>
  C2 as the claim words it fails: after \<open>builder.element('a').id('b')\<close> the rank of
  Element is below the greatest rank of the history, but \<open>.element('c')\<close> does not
  throw the ordering error: \<open>checkUniqueness\<close> runs first and throws its own.
\<close>

theorem C2_order_counterexample:
  "b_element ''a'' = Inr \<lparr>sel_value = ''a'', sel_type = [Element]\<rparr> \<and>
   sel_id \<lparr>sel_value = ''a'', sel_type = [Element]\<rparr> ''b'' =
     Inr \<lparr>sel_value = ''a#b'', sel_type = [Id, Element]\<rparr> \<and>
   rank Element < max_rank (sel_type \<lparr>sel_value = ''a#b'', sel_type = [Id, Element]\<rparr>) \<and>
   sel_element \<lparr>sel_value = ''a#b'', sel_type = [Id, Element]\<rparr> ''c'' \<noteq>
     Inl (Error ''Selector parts should be arranged in the following order: element, id, class, attribute, pseudo-class, pseudo-element'')"
  by (simp add: b_element_def sel_id_def sel_element_def CSSSelector_def checkUniqueness_def
      checkOrder_def indexOf_def order_def max_rank_def uniqueness_message_def)

text \<open>
  What a chain of getters does when every kind is at least as high in rank as all
  before it and nothing is duplicated: each call adds its fragment at the end of the
  text and its kind at the front of the array.
\<close>

lemma chain_from_ok:
  assumes "sorted (map (\<lambda>f. rank (fst f)) fs)"
    and "\<forall>f\<in>set fs. max_rank (sel_type s) \<le> rank (fst f)"
    and "checkUniqueness (rev (map fst fs) @ sel_type s) = Inr ()"
  shows "chain_from s fs =
           Inr \<lparr>sel_value = sel_value s @ concat (map (\<lambda>f. fragment (fst f) (snd f)) fs),
                sel_type = rev (map fst fs) @ sel_type s\<rparr>"
  using assms
proof (induction fs arbitrary: s)
  case Nil
  then show ?case by simp
next
  case (Cons f fs)
  obtain k v where f: "f = (k, v)" by (cases f)
  let ?s' = "\<lparr>sel_value = sel_value s @ fragment k v, sel_type = k # sel_type s\<rparr>"
  have u: "checkUniqueness (k # sel_type s) = Inr ()"
    using Cons.prems(3) checkUniqueness_tail [of "rev (map fst fs)" "k # sel_type s"]
    by (simp add: f)
  have m: "max_rank (sel_type s) \<le> rank k"
    using Cons.prems(2) by (simp add: f)
  have step: "append_kind k s v = Inr ?s'"
    using u m by (rule append_kind_ok)
  have "chain_from ?s' fs =
          Inr \<lparr>sel_value = sel_value ?s' @ concat (map (\<lambda>f. fragment (fst f) (snd f)) fs),
               sel_type = rev (map fst fs) @ sel_type ?s'\<rparr>"
  proof (rule Cons.IH)
    show "sorted (map (\<lambda>f. rank (fst f)) fs)"
      using Cons.prems(1) by simp
    show "\<forall>g\<in>set fs. max_rank (sel_type ?s') \<le> rank (fst g)"
      using Cons.prems(1) m by (auto simp add: f max_rank_Cons)
    show "checkUniqueness (rev (map fst fs) @ sel_type ?s') = Inr ()"
      using Cons.prems(3) by (simp add: f)
  qed
  then show ?case
    by (simp add: f step)
qed

lemma occurrences_checkUniqueness:
  assumes "\<forall>K\<in>unique_kinds. occurrences K ks \<le> 1"
  shows "checkUniqueness ks = Inr ()"
  using assms by (simp add: checkUniqueness_occurrences unique_kinds_def)

lemma occurrences_rev: "occurrences K (rev ks) = occurrences K ks"
  by (simp add: occurrences_def flip: rev_filter)

text \<open>
  C3. Take a chain of calls \<open>builder.k0(v0).k1(v1)...\<close> in which every kind has a rank
  at least as high as the ranks before it, with at most one Element, one Id and one
  PseudoElement. Every call succeeds, and \<open>stringify\<close> of the result is the
  concatenation of the delimited fragments grouped by rank, the fragments of one kind
  in the order of the calls; the delimiters are none for an Element, \<open>#\<close> for an
  Id, \<open>.\<close> for a Class, brackets around an Attr, \<open>:\<close> for a PseudoClass and \<open>::\<close>
  for a PseudoElement, as the second part shows on one fragment of each kind and a
  second Class.
\<close>

theorem C3_stringify_of_valid_chain:
  assumes "sorted (map (\<lambda>f. rank (fst f)) (f0 # fs))"
    and "\<forall>K\<in>unique_kinds. occurrences K (map fst (f0 # fs)) \<le> 1"
  shows "(\<exists>s. chain f0 fs = Inr s \<and> stringify s = spec_render (f0 # fs) \<and>
              sel_type s = rev (map fst (f0 # fs))) \<and>
         spec_render [(PseudoElement, x5), (Class, x2), (Element, x0), (PseudoClass, x4),
                      (Class, y2), (Attr, x3), (Id, x1)] =
           x0 @ ''#'' @ x1 @ ''.'' @ x2 @ ''.'' @ y2 @ ''['' @ x3 @ '']'' @ '':'' @ x4 @ ''::'' @ x5"
proof -
  let ?s0 = "\<lparr>sel_value = fragment (fst f0) (snd f0), sel_type = [fst f0]\<rparr>"
  have "\<forall>K\<in>unique_kinds. occurrences K (rev (map fst fs) @ [fst f0]) \<le> 1"
    using assms(2) occurrences_rev [of _ "map fst (f0 # fs)"] by simp
  then have u: "checkUniqueness (rev (map fst fs) @ sel_type ?s0) = Inr ()"
    using occurrences_checkUniqueness by simp
  have m: "\<forall>f\<in>set fs. max_rank (sel_type ?s0) \<le> rank (fst f)"
    using assms(1) by (auto simp add: max_rank_def)
  have "sorted (map (\<lambda>f. rank (fst f)) fs)"
    using assms(1) by simp
  then have "chain_from ?s0 fs =
      Inr \<lparr>sel_value = sel_value ?s0 @ concat (map (\<lambda>f. fragment (fst f) (snd f)) fs),
           sel_type = rev (map fst fs) @ sel_type ?s0\<rparr>"
    using m u by (rule chain_from_ok)
  moreover have "sort_key (\<lambda>f. rank (fst f)) (f0 # fs) = f0 # fs"
    using assms(1) by (rule sort_key_id_if_sorted)
  ultimately show ?thesis
    by (simp add: chain_def builder_kind_result stringify_def spec_render_def)
qed

theorem C3_stringify_of_valid_chain_witness:
  "sorted (map (\<lambda>f. rank (fst f))
     ((Element, ''div'') # [(Id, ''main''), (Class, ''container''), (Class, ''draggable''),
        (PseudoElement, ''after'')])) \<and>
   occurrences Element (map fst
     ((Element, ''div'') # [(Id, ''main''), (Class, ''container''), (Class, ''draggable''),
        (PseudoElement, ''after'')])) \<le> 1 \<and>
   occurrences Id (map fst
     ((Element, ''div'') # [(Id, ''main''), (Class, ''container''), (Class, ''draggable''),
        (PseudoElement, ''after'')])) \<le> 1 \<and>
   occurrences PseudoElement (map fst
     ((Element, ''div'') # [(Id, ''main''), (Class, ''container''), (Class, ''draggable''),
        (PseudoElement, ''after'')])) \<le> 1 \<and>
   (\<exists>s. chain (Element, ''div'') [(Id, ''main''), (Class, ''container''), (Class, ''draggable''),
        (PseudoElement, ''after'')] = Inr s \<and>
      stringify s = ''div#main.container.draggable::after'')"
proof -
  let ?f0 = "(Element, ''div'')"
  let ?fs = "[(Id, ''main''), (Class, ''container''), (Class, ''draggable''),
        (PseudoElement, ''after'')]"
  have a: "sorted (map (\<lambda>f. rank (fst f)) (?f0 # ?fs))"
    by simp
  have b: "\<forall>K\<in>unique_kinds. occurrences K (map fst (?f0 # ?fs)) \<le> 1"
    by (simp add: unique_kinds_def occurrences_def)
  have c: "spec_render (?f0 # ?fs) = ''div#main.container.draggable::after''"
    by (simp add: spec_render_def)
  show ?thesis
    using c C3_stringify_of_valid_chain [OF a b, THEN conjunct1]
    by (auto simp add: occurrences_def)
qed

text \<open>
  C4. \<open>combine\<close> succeeds on every two selectors and every combinator string, and
  the result renders as the left text, a space, the combinator, a space, the right
  text. The result is a selector like any other, so a combined selector on either
  side of a second \<open>combine\<close> is rendered in the same way, the inner text first.
\<close>

theorem C4_combine_stringify:
  "\<exists>s. b_combine left c right = Inr s \<and>
        stringify s = stringify left @ '' '' @ c @ '' '' @ stringify right \<and>
        (\<exists>t. b_combine s c' other = Inr t \<and>
              stringify t =
                (stringify left @ '' '' @ c @ '' '' @ stringify right) @ '' '' @ c' @ '' '' @
                stringify other) \<and>
        (\<exists>t. b_combine other c' s = Inr t \<and>
              stringify t =
                stringify other @ '' '' @ c' @ '' '' @
                (stringify left @ '' '' @ c @ '' '' @ stringify right))"
  by (simp add: b_combine_def combine_result stringify_def)

theorem C4_combine_stringify_witness:
  "\<exists>s. b_combine \<lparr>sel_value = ''div#main'', sel_type = [Id, Element]\<rparr> ''+''
          \<lparr>sel_value = ''table#data'', sel_type = [Id, Element]\<rparr> = Inr s \<and>
        stringify s = ''div#main + table#data'' \<and>
        (\<exists>t. b_combine \<lparr>sel_value = ''tr'', sel_type = [Element]\<rparr> '' '' s = Inr t \<and>
              stringify t = ''tr   div#main + table#data'')"
  using C4_combine_stringify
    [of "\<lparr>sel_value = ''div#main'', sel_type = [Id, Element]\<rparr>" "''+''"
        "\<lparr>sel_value = ''table#data'', sel_type = [Id, Element]\<rparr>" "'' ''"
        "\<lparr>sel_value = ''tr'', sel_type = [Element]\<rparr>"]
  by (auto simp add: stringify_def)

text \<open>
  C5. When an append is both a duplicate (its kind is Element, Id or PseudoElement
  and is in the history already) and out of order (its rank is below the greatest
  rank of the history), \<open>checkOrder\<close> alone would throw the ordering error, but the
  constructor runs \<open>checkUniqueness\<close> first: the error of the append is the one with
  the uniqueness message, which is not the ordering message.
\<close>

theorem C5_uniqueness_before_order:
  assumes "K \<in> unique_kinds" and "K \<in> set (sel_type s)" and "rank K < max_rank (sel_type s)"
  shows "checkUniqueness (K # sel_type s) = Inl (Error uniqueness_message) \<and>
         checkOrder (K # sel_type s) = Inl (Error order_message) \<and>
         append_kind K s v = Inl (Error uniqueness_message) \<and>
         Error uniqueness_message \<noteq> Error order_message"
  using assms
  by (simp add: append_kind_CSSSelector CSSSelector_Cons checkUniqueness_duplicate
      checkOrder_Cons messages_differ)

theorem C5_uniqueness_before_order_witness:
  "Id \<in> unique_kinds \<and>
   Id \<in> set (sel_type \<lparr>sel_value = ''#main.container'', sel_type = [Class, Id]\<rparr>) \<and>
   rank Id < max_rank (sel_type \<lparr>sel_value = ''#main.container'', sel_type = [Class, Id]\<rparr>) \<and>
   append_kind Id \<lparr>sel_value = ''#main.container'', sel_type = [Class, Id]\<rparr> ''top'' =
     Inl (Error uniqueness_message)"
proof -
  have a: "Id \<in> unique_kinds"
    by (simp add: unique_kinds_def)
  have b: "Id \<in> set (sel_type \<lparr>sel_value = ''#main.container'', sel_type = [Class, Id]\<rparr>)"
    by simp
  have c: "rank Id < max_rank (sel_type \<lparr>sel_value = ''#main.container'', sel_type = [Class, Id]\<rparr>)"
    by (simp add: max_rank_def)
  show ?thesis
    using a b c C5_uniqueness_before_order [OF a b c, of "''top''"] by simp
qed

text \<open>
  C7. The two chains of the specification:
  \<open>element('a').id('main').class('container').class('editable')\<close> and
  \<open>element('a').attr('href$=".png"').pseudoClass('focus')\<close>.
\<close>

theorem C7_reference_chains:
  \<open>map_sum id stringify
     (chain (Element, ''a'') [(Id, ''main''), (Class, ''container''), (Class, ''editable'')]) =
     Inr ''a#main.container.editable'' \<and>
   map_sum id stringify
     (chain (Element, ''a'') [(Attr, ''href$=".png"''), (PseudoClass, ''focus'')]) =
     Inr ''a[href$=".png"]:focus''\<close>
  by (simp add: chain_def b_element_def sel_id_def sel_class_def sel_attr_def
      sel_pseudoClass_def CSSSelector_def checkUniqueness_def checkOrder_def indexOf_def
      order_def stringify_def)

text \<open>
  C8. Every selector that the facade can produce, by its six entries, by the six
  getters of a selector so produced, or by \<open>combine\<close>, has at most one Element, at
  most one Id and at most one PseudoElement in its history.
\<close>

theorem C8_at_most_one:
  "reachable s \<Longrightarrow>
   occurrences Element (sel_type s) \<le> 1 \<and> occurrences Id (sel_type s) \<le> 1 \<and>
   occurrences PseudoElement (sel_type s) \<le> 1"
proof (induction rule: reachable.induct)
  case (by_builder k v s)
  then show ?case
    by (auto simp add: builder_kind_CSSSelector checkUniqueness_occurrences
        dest!: CSSSelector_Inr split: if_splits)
next
  case (by_getter s k v s')
  then show ?case
    by (auto simp add: append_kind_CSSSelector checkUniqueness_occurrences
        dest!: CSSSelector_Inr split: if_splits)
next
  case (by_combine s1 s2 c s)
  then show ?case
    by (auto simp add: b_combine_def combine_def checkUniqueness_occurrences
        dest!: CSSSelector_Inr split: if_splits)
qed

theorem C8_at_most_one_witness:
  "reachable \<lparr>sel_value = ''a + #b'', sel_type = [Element]\<rparr> \<and>
   occurrences Element (sel_type \<lparr>sel_value = ''a + #b'', sel_type = [Element]\<rparr>) \<le> 1 \<and>
   occurrences Id (sel_type \<lparr>sel_value = ''a + #b'', sel_type = [Element]\<rparr>) \<le> 1 \<and>
   occurrences PseudoElement (sel_type \<lparr>sel_value = ''a + #b'', sel_type = [Element]\<rparr>) \<le> 1"
proof -
  have a: "reachable \<lparr>sel_value = ''a'', sel_type = [Element]\<rparr>"
    using by_builder [OF builder_kind_result [of Element "''a''"]] by simp
  have b: "reachable \<lparr>sel_value = ''#b'', sel_type = [Id]\<rparr>"
    using by_builder [OF builder_kind_result [of Id "''b''"]] by simp
  have "b_combine \<lparr>sel_value = ''a'', sel_type = [Element]\<rparr> ''+''
          \<lparr>sel_value = ''#b'', sel_type = [Id]\<rparr> =
        Inr \<lparr>sel_value = ''a + #b'', sel_type = [Element]\<rparr>"
    by (simp add: b_combine_def combine_result stringify_def)
  then have r: "reachable \<lparr>sel_value = ''a + #b'', sel_type = [Element]\<rparr>"
    using a b by (rule by_combine [rotated 2])
  show ?thesis
    using r C8_at_most_one [OF r] by simp
qed

text \<open>
  C10. What \<open>combine\<close> returns has the history \<open>['element']\<close>. So \<open>element\<close> on it
  throws the duplicate error, and each of the five other getters succeeds and
  returns a selector whose text is the combined text with the delimited fragment
  at its end.
\<close>

theorem C10_combined_selector_appends:
  "\<exists>cs. b_combine left c right = Inr cs \<and> sel_type cs = [Element] \<and>
      sel_element cs v = Inl (Error uniqueness_message) \<and>
      (\<exists>s. sel_id cs v = Inr s \<and> stringify s = stringify cs @ ''#'' @ v) \<and>
      (\<exists>s. sel_class cs v = Inr s \<and> stringify s = stringify cs @ ''.'' @ v) \<and>
      (\<exists>s. sel_attr cs v = Inr s \<and> stringify s = stringify cs @ ''['' @ v @ '']'') \<and>
      (\<exists>s. sel_pseudoClass cs v = Inr s \<and> stringify s = stringify cs @ '':'' @ v) \<and>
      (\<exists>s. sel_pseudoElement cs v = Inr s \<and> stringify s = stringify cs @ ''::'' @ v)"
  by (simp add: b_combine_def combine_result stringify_def sel_element_def sel_id_def
      sel_class_def sel_attr_def sel_pseudoClass_def sel_pseudoElement_def CSSSelector_Cons
      checkUniqueness_occurrences occurrences_def max_rank_def)

theorem C10_combined_selector_appends_witness:
  "\<exists>cs. b_combine \<lparr>sel_value = ''div'', sel_type = [Element]\<rparr> ''>''
           \<lparr>sel_value = ''.item'', sel_type = [Class]\<rparr> = Inr cs \<and>
      stringify cs = ''div > .item'' \<and>
      sel_element cs ''p'' = Inl (Error uniqueness_message) \<and>
      (\<exists>s. sel_pseudoClass cs ''hover'' = Inr s \<and> stringify s = ''div > .item:hover'')"
  using C10_combined_selector_appends
    [of "\<lparr>sel_value = ''div'', sel_type = [Element]\<rparr>" "''>''"
        "\<lparr>sel_value = ''.item'', sel_type = [Class]\<rparr>" "''p''"]
    C10_combined_selector_appends
    [of "\<lparr>sel_value = ''div'', sel_type = [Element]\<rparr>" "''>''"
        "\<lparr>sel_value = ''.item'', sel_type = [Class]\<rparr>" "''hover''"]
  by (auto simp add: b_combine_def combine_result stringify_def)

section \<open>The receiver of a call in the store\<close>

lemma lookup_old: "a < length cells \<Longrightarrow> lookup (cells @ new) a = lookup cells a"
  by (simp add: lookup_def nth_append)

lemma lookup_new: "lookup (cells @ [c]) (length cells) = Some c"
  by (simp add: lookup_def)

lemma lookup_Some: "lookup cells a = Some c \<Longrightarrow> a < length cells"
  by (simp add: lookup_def split: if_splits)

lemma selector_at_fields:
  assumes "selector_at h this = Some s"
  shows "this_value h this = Some (sel_value s)" and "this_type h this = Some (sel_type s)"
  using assms by (auto simp add: selector_at_def split: option.splits)

text \<open>Cells added at the end leave every selector of the old store as it was.\<close>

lemma selector_at_extend:
  assumes "selector_at h this = Some s"
  shows "selector_at \<lparr>objects = objects h @ obs, arrays = arrays h @ ars\<rparr> this = Some s"
proof -
  obtain ob where ob: "lookup (objects h) this = Some ob"
    using assms by (auto simp add: selector_at_def this_value_def split: option.splits)
  then have ty: "lookup (arrays h) (type_field ob) = Some (sel_type s)"
    using selector_at_fields(2) [OF assms] by (simp add: this_type_def)
  have v: "value_field ob = sel_value s"
    using selector_at_fields(1) [OF assms] ob by (simp add: this_value_def)
  have "lookup (objects h @ obs) this = Some ob"
    using ob lookup_Some [OF ob] by (simp add: lookup_old)
  moreover have "lookup (arrays h @ ars) (type_field ob) = Some (sel_type s)"
    using ty lookup_Some [OF ty] by (simp add: lookup_old)
  ultimately show ?thesis
    using v by (simp add: selector_at_def this_value_def this_type_def)
qed

text \<open>One call of a getter: the store grows by one array and one object, and the
  outcome is the outcome of the getter on the selector that the receiver stands
  for.\<close>

lemma h_append_result:
  assumes "selector_at h this = Some s"
  shows "h_append k this v h =
           Some (map_sum id (\<lambda>_. length (objects h)) (append_kind k s v),
                 \<lparr>objects = objects h @
                              [\<lparr>value_field = sel_value s @ fragment k v,
                                type_field = length (arrays h)\<rparr>],
                  arrays = arrays h @ [k # sel_type s]\<rparr>)"
  using selector_at_fields [OF assms]
  by (simp add: h_append_def h_CSSSelector_def new_array_def new_object_def lookup_new
      this_type_def append_kind_CSSSelector CSSSelector_def split: sum.splits)

lemma append_kind_Inr:
  "append_kind k s v = Inr s' \<Longrightarrow>
   s' = \<lparr>sel_value = sel_value s @ fragment k v, sel_type = k # sel_type s\<rparr>"
  by (auto simp add: append_kind_CSSSelector CSSSelector_def Let_def split: sum.splits)

lemma h_append_step:
  assumes "selector_at h this = Some s"
  shows "\<exists>r. h_append k this v h =
               Some (r, \<lparr>objects = objects h @
                             [\<lparr>value_field = sel_value s @ fragment k v,
                               type_field = length (arrays h)\<rparr>],
                         arrays = arrays h @ [k # sel_type s]\<rparr>) \<and>
             denote \<lparr>objects = objects h @
                             [\<lparr>value_field = sel_value s @ fragment k v,
                               type_field = length (arrays h)\<rparr>],
                     arrays = arrays h @ [k # sel_type s]\<rparr> r = Some (append_kind k s v)"
proof (cases "append_kind k s v")
  case (Inl e)
  then show ?thesis
    using h_append_result [OF assms, of k v] by (simp add: denote_def)
next
  case (Inr s')
  then show ?thesis
    using h_append_result [OF assms, of k v] append_kind_Inr [OF Inr]
    by (simp add: denote_def selector_at_def this_value_def this_type_def lookup_new)
qed

text \<open>
  C6. Let \<open>this\<close> be the address of a selector \<open>s\<close>. A getter called on \<open>this\<close>,
  with any kind and value, returns or throws, and in the store it leaves: \<open>this\<close>
  still stands for \<open>s\<close>, \<open>stringify\<close> on it returns the same text as before, its
  history is the same, and every old cell is as it was (the store has only grown
  at its end). The outcome is that of the getter on \<open>s\<close>. A second getter on the same receiver
  therefore meets the same \<open>s\<close>: its outcome is again that of the getter on \<open>s\<close>,
  whether the first call threw or not.
\<close>

theorem C6_receiver_unchanged:
  assumes "selector_at h this = Some s"
  shows "\<exists>r h'. h_append k this v h = Some (r, h') \<and>
           denote h' r = Some (append_kind k s v) \<and>
           selector_at h' this = Some s \<and>
           this_type h' this = this_type h this \<and>
           h_stringify this h = Some (stringify s, h) \<and>
           h_stringify this h' = Some (stringify s, h') \<and>
           take (length (objects h)) (objects h') = objects h \<and>
           take (length (arrays h)) (arrays h') = arrays h \<and>
           (\<exists>r2 h2. h_append k2 this v2 h' = Some (r2, h2) \<and>
              denote h2 r2 = Some (append_kind k2 s v2) \<and>
              selector_at h2 this = Some s)"
proof -
  let ?h' = "\<lparr>objects = objects h @
                 [\<lparr>value_field = sel_value s @ fragment k v, type_field = length (arrays h)\<rparr>],
               arrays = arrays h @ [k # sel_type s]\<rparr>"
  obtain r where r: "h_append k this v h = Some (r, ?h')"
    and d: "denote ?h' r = Some (append_kind k s v)"
    using h_append_step [OF assms] by blast
  have s': "selector_at ?h' this = Some s"
    using assms by (rule selector_at_extend)
  let ?h2 = "\<lparr>objects = objects ?h' @
                 [\<lparr>value_field = sel_value s @ fragment k2 v2, type_field = length (arrays ?h')\<rparr>],
               arrays = arrays ?h' @ [k2 # sel_type s]\<rparr>"
  obtain r2 where r2: "h_append k2 this v2 ?h' = Some (r2, ?h2)"
    and d2: "denote ?h2 r2 = Some (append_kind k2 s v2)"
    using h_append_step [OF s'] by blast
  have s2: "selector_at ?h2 this = Some s"
    using s' by (rule selector_at_extend)
  have t: "this_type ?h' this = this_type h this"
    using selector_at_fields(2) [OF assms] selector_at_fields(2) [OF s'] by simp
  have st: "h_stringify this h = Some (stringify s, h)"
    using selector_at_fields(1) [OF assms] by (simp add: h_stringify_def stringify_def)
  have st': "h_stringify this ?h' = Some (stringify s, ?h')"
    using selector_at_fields(1) [OF s'] by (simp add: h_stringify_def stringify_def)
  have again: "\<exists>r2 h2. h_append k2 this v2 ?h' = Some (r2, h2) \<and>
      denote h2 r2 = Some (append_kind k2 s v2) \<and> selector_at h2 this = Some s"
    using r2 d2 s2 by blast
  show ?thesis
  proof (rule exI [of _ r], rule exI [of _ ?h'], intro conjI)
    show "h_append k this v h = Some (r, ?h')" by (rule r)
    show "denote ?h' r = Some (append_kind k s v)" by (rule d)
    show "selector_at ?h' this = Some s" by (rule s')
    show "this_type ?h' this = this_type h this" by (rule t)
    show "h_stringify this h = Some (stringify s, h)" by (rule st)
    show "h_stringify this ?h' = Some (stringify s, ?h')" by (rule st')
    show "take (length (objects h)) (objects ?h') = objects h" by simp
    show "take (length (arrays h)) (arrays ?h') = arrays h" by simp
    show "\<exists>r2 h2. h_append k2 this v2 ?h' = Some (r2, h2) \<and>
      denote h2 r2 = Some (append_kind k2 s v2) \<and> selector_at h2 this = Some s"
      by (rule again)
  qed
qed

theorem C6_receiver_unchanged_witness:
  "selector_at \<lparr>objects = [\<lparr>value_field = ''.a'', type_field = 0\<rparr>], arrays = [[Class]]\<rparr> 0 =
     Some \<lparr>sel_value = ''.a'', sel_type = [Class]\<rparr> \<and>
   (\<exists>r h'. h_append Id 0 ''b''
              \<lparr>objects = [\<lparr>value_field = ''.a'', type_field = 0\<rparr>], arrays = [[Class]]\<rparr> =
              Some (r, h') \<and>
            denote h' r = Some (Inl (Error order_message)) \<and>
            selector_at h' 0 = Some \<lparr>sel_value = ''.a'', sel_type = [Class]\<rparr> \<and>
            h_stringify 0 h' = Some (''.a'', h') \<and>
            (\<exists>r2 h2. h_append Class 0 ''c'' h' = Some (r2, h2) \<and>
               denote h2 r2 = Some (Inr \<lparr>sel_value = ''.a.c'', sel_type = [Class, Class]\<rparr>)))"
proof -
  let ?h = "\<lparr>objects = [\<lparr>value_field = ''.a'', type_field = 0\<rparr>], arrays = [[Class]]\<rparr>"
  let ?s = "\<lparr>sel_value = ''.a'', sel_type = [Class]\<rparr>"
  have a: "selector_at ?h 0 = Some ?s"
    by (simp add: selector_at_def this_value_def this_type_def lookup_def)
  have b: "append_kind Id ?s ''b'' = Inl (Error order_message)"
    by (simp add: sel_id_def CSSSelector_Cons checkUniqueness_occurrences occurrences_def
        max_rank_def)
  have c: "append_kind Class ?s ''c'' = Inr \<lparr>sel_value = ''.a.c'', sel_type = [Class, Class]\<rparr>"
    by (simp add: sel_class_def CSSSelector_Cons checkUniqueness_occurrences occurrences_def
        max_rank_def)
  show ?thesis
    using a C6_receiver_unchanged [OF a, of Id "''b''" Class "''c''"]
    unfolding b c stringify_def by auto
qed

text \<open>
  C9. \<open>stringify\<close> called twice in a row on a selector returns the same string
  both times, the text of the selector, and the store after each call is the store
  before it.
\<close>

theorem C9_stringify_twice:
  assumes "selector_at h this = Some s"
  shows "\<exists>r1 h1 r2 h2. h_stringify this h = Some (r1, h1) \<and> h_stringify this h1 = Some (r2, h2) \<and>
           r1 = r2 \<and> r1 = stringify s \<and> h1 = h \<and> h2 = h \<and> selector_at h2 this = Some s"
  using assms selector_at_fields(1) [OF assms]
  by (simp add: h_stringify_def stringify_def)

theorem C9_stringify_twice_witness:
  "selector_at \<lparr>objects = [\<lparr>value_field = ''a#b'', type_field = 0\<rparr>], arrays = [[Id, Element]]\<rparr> 0 =
     Some \<lparr>sel_value = ''a#b'', sel_type = [Id, Element]\<rparr> \<and>
   (\<exists>h1 h2. h_stringify 0
       \<lparr>objects = [\<lparr>value_field = ''a#b'', type_field = 0\<rparr>], arrays = [[Id, Element]]\<rparr> =
       Some (''a#b'', h1) \<and>
     h_stringify 0 h1 = Some (''a#b'', h2) \<and>
     h2 = \<lparr>objects = [\<lparr>value_field = ''a#b'', type_field = 0\<rparr>], arrays = [[Id, Element]]\<rparr>)"
proof -
  let ?h = "\<lparr>objects = [\<lparr>value_field = ''a#b'', type_field = 0\<rparr>], arrays = [[Id, Element]]\<rparr>"
  have a: "selector_at ?h 0 = Some \<lparr>sel_value = ''a#b'', sel_type = [Id, Element]\<rparr>"
    by (simp add: selector_at_def this_value_def this_type_def lookup_def)
  show ?thesis
    using a C9_stringify_twice [OF a] by (simp add: stringify_def)
qed

end
